theory Spec2Isabelle
  imports Complex_Main "HOL-Library.Log_Nat"
begin

section \<open>Data model (services/api.ts)\<close>

datatype pillar = Cognitive | Physical | Language | Character | Creativity

datatype difficulty = easy | medium | hard

text \<open>The field \<^verbatim>\<open>completion_timestamp?: string | null\<close> may be missing, null or a string.\<close>

datatype timestamp = Absent | Null | Stamp string

text \<open>\<^verbatim>\<open>SaveCheckinPayload\<close>: the argument of \<^verbatim>\<open>saveDailyCheckin\<close>.\<close>

record SaveCheckinPayload =
  child_id :: int
  joy_score :: int
  parent_notes :: string

text \<open>
  \<^verbatim>\<open>DailyTask\<close>. The field \<^verbatim>\<open>id\<close> is named \<open>id_t\<close> here (\<open>id\<close> is the identity
  function of HOL). Identifiers, durations and scores are JavaScript numbers that only
  carry integers; they are compared with \<^verbatim>\<open>===\<close> and \<^verbatim>\<open>>=\<close>, which on integers are the
  comparisons of \<open>int\<close>.
\<close>

record DailyTask =
  id_t :: int
  child_id :: int
  pillar :: pillar
  title :: string
  description :: string
  duration_minutes :: int
  difficulty_level :: difficulty
  completed :: bool
  completion_timestamp :: timestamp
  date_assigned :: string

section \<open>The network boundary\<close>

text \<open>
  Exceptions of the program. \<^verbatim>\<open>new Error(msg)\<close> is thrown by the client itself,
  \<^verbatim>\<open>fetch\<close> rejects with a \<^verbatim>\<open>TypeError\<close> when the network fails, and
  \<^verbatim>\<open>response.json()\<close> rejects with a \<^verbatim>\<open>SyntaxError\<close> on a body that does not parse.
\<close>

datatype exn = Error string | TypeError string | SyntaxError string

fun message :: "exn \<Rightarrow> string" where
  "message (Error m) = m"
| "message (TypeError m) = m"
| "message (SyntaxError m) = m"

fun instanceof_Error :: "exn \<Rightarrow> bool" where
  "instanceof_Error (Error m) = True"
| "instanceof_Error (TypeError m) = True"
| "instanceof_Error (SyntaxError m) = True"

datatype http_method = GET | POST

text \<open>The paths under \<^verbatim>\<open>API_BASE_URL\<close> that the client builds.\<close>

datatype path =
    daily_plan int            \<comment> \<open>\<^verbatim>\<open>/daily-plan/${childId}\<close>\<close>
  | profiles                  \<comment> \<open>\<^verbatim>\<open>/profiles/\<close>\<close>
  | tasks_complete_task       \<comment> \<open>\<^verbatim>\<open>/tasks/complete_task\<close>\<close>
  | daily_plan_checkin int    \<comment> \<open>\<^verbatim>\<open>/daily-plan/${payload.child_id}/checkin\<close>\<close>

text \<open>The three JSON bodies the client sends, field by field in the order of the source.\<close>

datatype json_body =
    profile_body string string "string list" string
      \<comment> \<open>\<^verbatim>\<open>{ name, date_of_birth, interests, parent_priority }\<close>\<close>
  | complete_body int bool
      \<comment> \<open>\<^verbatim>\<open>{ task_id, completed }\<close>\<close>
  | checkin_body int string
      \<comment> \<open>\<^verbatim>\<open>{ joy_score, parent_notes }\<close>\<close>

text \<open>\<^verbatim>\<open>headers: { 'Content-Type': 'application/json' }\<close>, sent with every POST.\<close>

definition json_headers :: "(string \<times> string) list" where
  "json_headers = [(''Content-Type'', ''application/json'')]"

record request =
  method_http :: http_method
  path :: path
  no_store :: bool            \<comment> \<open>\<^verbatim>\<open>cache: 'no-store'\<close>\<close>
  headers :: "(string \<times> string) list"
  body :: "json_body option"

text \<open>
  What a response body parses to. The signatures of the client promise
  \<^verbatim>\<open>DailyTask[]\<close> and \<^verbatim>\<open>DailyTask\<close>; a body of any other shape is outside the typed
  program and is counted with the bodies on which \<^verbatim>\<open>response.json()\<close> rejects.
\<close>

datatype payload = task_list "DailyTask list" | one_task DailyTask | unparsable

record response =
  status :: int
  content :: payload

definition ok :: "response \<Rightarrow> bool" where
  "ok r \<longleftrightarrow> 200 \<le> status r \<and> status r \<le> 299"

definition json_tasks :: "response \<Rightarrow> exn + DailyTask list" where
  "json_tasks r =
     (case content r of task_list ts \<Rightarrow> Inr ts | _ \<Rightarrow> Inl (SyntaxError ''Unexpected token''))"

definition json_task :: "response \<Rightarrow> exn + DailyTask" where
  "json_task r =
     (case content r of one_task t \<Rightarrow> Inr t | _ \<Rightarrow> Inl (SyntaxError ''Unexpected token''))"

text \<open>
  The backend is an external collaborator: any function from the requests made so far and
  the current request to the settlement of \<^verbatim>\<open>fetch\<close> (a rejection or a response). The
  world of the client is the chronological log of the requests it has issued.
\<close>

type_synonym server = "request list \<Rightarrow> request \<Rightarrow> exn + response"

definition fetch :: "server \<Rightarrow> request list \<Rightarrow> request \<Rightarrow> (exn + response) \<times> request list" where
  "fetch srv reqs req = (srv reqs req, reqs @ [req])"

section \<open>Remote API client (services/api.ts)\<close>

definition profile_request :: request where
  "profile_request =
     \<lparr>method_http = POST, path = profiles, no_store = False, headers = json_headers,
      body = Some (profile_body ''Demo Child'' ''2015-06-15'' [''learning'', ''sports'']
                     ''balanced development'')\<rparr>"

definition plan_request :: "int \<Rightarrow> request" where
  "plan_request childId =
     \<lparr>method_http = GET, path = daily_plan childId, no_store = True, headers = [], body = None\<rparr>"

definition complete_request :: "int \<Rightarrow> bool \<Rightarrow> request" where
  "complete_request taskId c =
     \<lparr>method_http = POST, path = tasks_complete_task, no_store = False, headers = json_headers,
      body = Some (complete_body taskId c)\<rparr>"

definition checkin_request :: "SaveCheckinPayload \<Rightarrow> request" where
  "checkin_request p =
     \<lparr>method_http = POST, path = daily_plan_checkin (SaveCheckinPayload.child_id p), no_store = False, headers = json_headers,
      body = Some (checkin_body (joy_score p) (parent_notes p))\<rparr>"

text \<open>\<^verbatim>\<open>ensureDefaultProfileExists\<close>: one POST whose response is not inspected.\<close>

definition ensureDefaultProfileExists :: "server \<Rightarrow> request list \<Rightarrow> (exn + unit) \<times> request list" where
  "ensureDefaultProfileExists srv reqs =
     (case fetch srv reqs profile_request of
        (Inl e, reqs') \<Rightarrow> (Inl e, reqs')
      | (Inr _, reqs') \<Rightarrow> (Inr (), reqs'))"

definition fetchDailyPlan ::
  "server \<Rightarrow> request list \<Rightarrow> int \<Rightarrow> (exn + DailyTask list) \<times> request list" where
  "fetchDailyPlan srv reqs childId =
     (case fetch srv reqs (plan_request childId) of
        (Inl e, reqs1) \<Rightarrow> (Inl e, reqs1)
      | (Inr response, reqs1) \<Rightarrow>
          if ok response then (json_tasks response, reqs1)
          else if status response = 404 then
            (case ensureDefaultProfileExists srv reqs1 of
               (Inl e, reqs2) \<Rightarrow> (Inl e, reqs2)
             | (Inr _, reqs2) \<Rightarrow>
                 (case fetch srv reqs2 (plan_request childId) of
                    (Inl e, reqs3) \<Rightarrow> (Inl e, reqs3)
                  | (Inr retry, reqs3) \<Rightarrow>
                      if ok retry then (json_tasks retry, reqs3)
                      else (Inl (Error ''Failed to fetch daily plan''), reqs3)))
          else (Inl (Error ''Failed to fetch daily plan''), reqs1))"

definition completeTask ::
  "server \<Rightarrow> request list \<Rightarrow> int \<Rightarrow> bool \<Rightarrow> (exn + DailyTask) \<times> request list" where
  "completeTask srv reqs taskId c =
     (case fetch srv reqs (complete_request taskId c) of
        (Inl e, reqs') \<Rightarrow> (Inl e, reqs')
      | (Inr response, reqs') \<Rightarrow>
          if \<not> ok response then (Inl (Error ''Failed to update task status''), reqs')
          else (json_task response, reqs'))"

definition saveDailyCheckin ::
  "server \<Rightarrow> request list \<Rightarrow> SaveCheckinPayload \<Rightarrow> (exn + unit) \<times> request list" where
  "saveDailyCheckin srv reqs p =
     (case fetch srv reqs (checkin_request p) of
        (Inl e, reqs') \<Rightarrow> (Inl e, reqs')
      | (Inr response, reqs') \<Rightarrow>
          if \<not> ok response then (Inl (Error ''Failed to save joy score and parent notes''), reqs')
          else (Inr (), reqs'))"

section \<open>JavaScript numbers in the completion percentage\<close>

text \<open>
  \<^verbatim>\<open>done / tasks.length\<close> and \<^verbatim>\<open>... * 100\<close> are IEEE 754 binary64 operations: the exact
  quotient or product, rounded to the nearest number with a 53-bit significand, ties to
  the even significand. A finite double is a rational, so the operations are modelled on
  \<open>rat\<close>; the values that occur lie between 0 and 100, far from overflow and from the
  subnormal range. \<open>binade x\<close> is the exponent \<open>e\<close> with \<open>2^e \<le> x < 2^(e+1)\<close>.
\<close>

definition round_half_even :: "rat \<Rightarrow> int" where
  "round_half_even x =
     (let f = \<lfloor>x\<rfloor>; r = x - of_int f
      in if r < 1 / 2 then f else if 1 / 2 < r then f + 1 else if even f then f else f + 1)"

definition binade :: "rat \<Rightarrow> int" where
  "binade x =
     (if 1 \<le> x then int (floorlog 2 (nat \<lfloor>x\<rfloor>)) - 1
      else - int (floorlog 2 (nat \<lceil>1 / x\<rceil> - 1)))"

definition fl :: "rat \<Rightarrow> rat" where
  "fl x =
     (if x = 0 then 0
      else let e = binade \<bar>x\<bar> - 52
           in sgn x * of_int (round_half_even (\<bar>x\<bar> / 2 powi e)) * 2 powi e)"

definition js_div :: "rat \<Rightarrow> rat \<Rightarrow> rat" where
  "js_div x y = fl (x / y)"

definition js_mul :: "rat \<Rightarrow> rat \<Rightarrow> rat" where
  "js_mul x y = fl (x * y)"

text \<open>\<^verbatim>\<open>Math.round\<close>: the integer nearest to the argument, a tie going up.\<close>

definition Math_round :: "rat \<Rightarrow> int" where
  "Math_round x = \<lfloor>x + 1 / 2\<rfloor>"

section \<open>Task list controller and checkin flow (components/DailyChecklist.tsx)\<close>

record state =
  tasks :: "DailyTask list"
  loading :: bool
  error :: "string option"
  joyScore :: int
  parentNotes :: string
  saving :: bool
  saveMessage :: "string option"

text \<open>The \<^verbatim>\<open>useState\<close> initial values.\<close>

definition initial :: state where
  "initial =
     \<lparr>tasks = [], loading = True, error = None, joyScore = 3, parentNotes = [],
      saving = False, saveMessage = None\<rparr>"

text \<open>
  \<^verbatim>\<open>DEMO_TASKS\<close>. Its \<^verbatim>\<open>date_assigned\<close> fields are the first ten characters of the
  ISO date at module load, taken as the parameter \<open>today\<close>.
\<close>

definition DEMO_TASKS :: "string \<Rightarrow> DailyTask list" where
  "DEMO_TASKS today =
     [\<lparr>id_t = 1001, child_id = 1, pillar = Cognitive, title = ''Math Puzzle Sprint'',
       description = ''Solve 5 logic problems with a 15-minute timer.'',
       duration_minutes = 15, difficulty_level = medium, completed = True,
       completion_timestamp = Null, date_assigned = today\<rparr>,
      \<lparr>id_t = 1002, child_id = 1, pillar = Physical, title = ''Movement Circuit'',
       description = ''Complete 3 rounds of jump, squat, and stretch.'',
       duration_minutes = 20, difficulty_level = easy, completed = False,
       completion_timestamp = Null, date_assigned = today\<rparr>,
      \<lparr>id_t = 1003, child_id = 1, pillar = Language, title = ''Story Retell'',
       description = ''Read a short story and summarize it in 5 sentences.'',
       duration_minutes = 25, difficulty_level = medium, completed = False,
       completion_timestamp = Null, date_assigned = today\<rparr>,
      \<lparr>id_t = 1004, child_id = 1, pillar = Character, title = ''Gratitude Reflection'',
       description = ''Write down 3 things you are thankful for today.'',
       duration_minutes = 10, difficulty_level = easy, completed = True,
       completion_timestamp = Null, date_assigned = today\<rparr>,
      \<lparr>id_t = 1005, child_id = 1, pillar = Creativity, title = ''Sketch Challenge'',
       description = ''Draw your future city in under 20 minutes.'',
       duration_minutes = 20, difficulty_level = hard, completed = False,
       completion_timestamp = Null, date_assigned = today\<rparr>]"

subsection \<open>The mount effect\<close>

text \<open>
  An \<^verbatim>\<open>async\<close> function runs synchronously up to its first \<^verbatim>\<open>await\<close> and resumes when
  the awaited promise settles; other handlers may run in between. Each asynchronous
  handler is therefore given in two parts, the part before the \<^verbatim>\<open>await\<close> and the part
  that resumes on the settlement and on whatever the state is by then, and as their
  composition when nothing runs in between.
\<close>

definition run_begin :: "state \<Rightarrow> state" where
  "run_begin s = s\<lparr>loading := True\<rparr>"

definition run_settle :: "string \<Rightarrow> exn + DailyTask list \<Rightarrow> state \<Rightarrow> state" where
  "run_settle today r s =
     (case r of
        Inr dailyTasks \<Rightarrow> s\<lparr>tasks := dailyTasks, error := None, loading := False\<rparr>
      | Inl _ \<Rightarrow>
          s\<lparr>tasks := DEMO_TASKS today,
            error := Some ''Live backend unavailable. Showing demo data for executive preview.'',
            loading := False\<rparr>)"

definition run :: "string \<Rightarrow> server \<Rightarrow> request list \<Rightarrow> int \<Rightarrow> state \<Rightarrow> state \<times> request list" where
  "run today srv reqs childId s =
     (case fetchDailyPlan srv reqs childId of
        (r, reqs') \<Rightarrow> (run_settle today r (run_begin s), reqs'))"

subsection \<open>Completion percentage\<close>

definition completionPercentage :: "DailyTask list \<Rightarrow> int" where
  "completionPercentage ts =
     (if length ts = 0 then 0
      else let done = length (filter completed ts)
           in Math_round (js_mul (js_div (of_nat done) (of_nat (length ts))) 100))"

subsection \<open>Toggling a task\<close>

text \<open>The two updaters passed to \<^verbatim>\<open>setTasks\<close>.\<close>

definition set_completed :: "int \<Rightarrow> bool \<Rightarrow> DailyTask list \<Rightarrow> DailyTask list" where
  "set_completed taskId c current =
     map (\<lambda>task. if id_t task = taskId then task\<lparr>completed := c\<rparr> else task) current"

definition adopt :: "DailyTask \<Rightarrow> DailyTask list \<Rightarrow> DailyTask list" where
  "adopt updated current =
     map (\<lambda>task. if id_t task = id_t updated then updated else task) current"

text \<open>
  The synchronous part of \<^verbatim>\<open>onToggleTask\<close>. It returns the snapshot \<^verbatim>\<open>previous\<close> when
  a call of \<^verbatim>\<open>completeTask\<close> follows, and nothing for a demo row.
\<close>

definition onToggleTask_begin :: "int \<Rightarrow> bool \<Rightarrow> state \<Rightarrow> state \<times> DailyTask list option" where
  "onToggleTask_begin taskId c s =
     (let previous = tasks s
      in if taskId \<ge> 1000 then (s\<lparr>tasks := set_completed taskId c (tasks s)\<rparr>, None)
         else (s\<lparr>tasks := set_completed taskId c (tasks s)\<rparr>, Some previous))"

definition onToggleTask_settle :: "DailyTask list \<Rightarrow> exn + DailyTask \<Rightarrow> state \<Rightarrow> state" where
  "onToggleTask_settle previous r s =
     (case r of
        Inr updated \<Rightarrow> s\<lparr>tasks := adopt updated (tasks s)\<rparr>
      | Inl _ \<Rightarrow>
          s\<lparr>tasks := previous,
            error := Some ''Could not update task status. Please try again.''\<rparr>)"

definition onToggleTask ::
  "server \<Rightarrow> request list \<Rightarrow> int \<Rightarrow> bool \<Rightarrow> state \<Rightarrow> state \<times> request list" where
  "onToggleTask srv reqs taskId c s =
     (case onToggleTask_begin taskId c s of
        (s1, None) \<Rightarrow> (s1, reqs)
      | (s1, Some previous) \<Rightarrow>
          (case completeTask srv reqs taskId c of
             (r, reqs') \<Rightarrow> (onToggleTask_settle previous r s1, reqs')))"

subsection \<open>Submitting the checkin\<close>

text \<open>
  The synchronous part of \<^verbatim>\<open>onSubmit\<close>. In demo mode the \<^verbatim>\<open>return\<close> inside
  \<^verbatim>\<open>try\<close> still runs the \<^verbatim>\<open>finally\<close> block. Otherwise it returns the payload handed
  to \<^verbatim>\<open>saveDailyCheckin\<close>.
\<close>

definition onSubmit_begin :: "int \<Rightarrow> state \<Rightarrow> state \<times> SaveCheckinPayload option" where
  "onSubmit_begin childId s =
     (let s1 = s\<lparr>saving := True, saveMessage := None, error := None\<rparr>
      in if list_ex (\<lambda>task. id_t task \<ge> 1000) (tasks s) then
           (s1\<lparr>saveMessage := Some ''Demo check-in saved locally. Connect backend to persist.'',
               saving := False\<rparr>, None)
         else
           (s1, Some \<lparr>SaveCheckinPayload.child_id = childId, joy_score = joyScore s,
                      parent_notes = parentNotes s\<rparr>))"

definition onSubmit_settle :: "exn + unit \<Rightarrow> state \<Rightarrow> state" where
  "onSubmit_settle r s =
     (case r of
        Inr _ \<Rightarrow> s\<lparr>saveMessage := Some ''Saved joy score and notes successfully.'',
                   saving := False\<rparr>
      | Inl submitError \<Rightarrow>
          s\<lparr>error := Some (if instanceof_Error submitError then message submitError
                            else ''Failed to save check-in''),
            saving := False\<rparr>)"

definition onSubmit :: "server \<Rightarrow> request list \<Rightarrow> int \<Rightarrow> state \<Rightarrow> state \<times> request list" where
  "onSubmit srv reqs childId s =
     (case onSubmit_begin childId s of
        (s1, None) \<Rightarrow> (s1, reqs)
      | (s1, Some p) \<Rightarrow>
          (case saveDailyCheckin srv reqs p of
             (r, reqs') \<Rightarrow> (onSubmit_settle r s1, reqs')))"

text \<open>
  The rendered controls: the range input and the text area write the two inputs, and the
  button carries \<^verbatim>\<open>disabled={saving}\<close>; a disabled button dispatches no click.
\<close>

definition setJoyScore :: "int \<Rightarrow> state \<Rightarrow> state" where
  "setJoyScore v s = s\<lparr>joyScore := v\<rparr>"

definition setParentNotes :: "string \<Rightarrow> state \<Rightarrow> state" where
  "setParentNotes v s = s\<lparr>parentNotes := v\<rparr>"

definition button_disabled :: "state \<Rightarrow> bool" where
  "button_disabled s = saving s"

definition button_click :: "int \<Rightarrow> state \<Rightarrow> state \<times> SaveCheckinPayload option" where
  "button_click childId s = (if button_disabled s then (s, None) else onSubmit_begin childId s)"

subsection \<open>The controller as an event system\<close>

text \<open>
  A configuration is the state of the mounted component together with the number of
  \<^verbatim>\<open>saveDailyCheckin\<close> calls that have been started and have not settled yet. One step
  is one handler or one resumption: a click on the submit button, the settlement of an
  outstanding submission, either part of a toggle (with any snapshot and any settlement),
  the settlement of the mount effect, or an edit of one of the two inputs.
\<close>

inductive step :: "int \<Rightarrow> string \<Rightarrow> state \<times> nat \<Rightarrow> state \<times> nat \<Rightarrow> bool"
  for childId :: int and today :: string where
  click_started: "button_click childId s = (s', Some p) \<Longrightarrow> step childId today (s, n) (s', Suc n)"
| click_local: "button_click childId s = (s', None) \<Longrightarrow> step childId today (s, n) (s', n)"
| submit_settled: "step childId today (s, Suc n) (onSubmit_settle r s, n)"
| toggle_begun: "step childId today (s, n) (fst (onToggleTask_begin taskId c s), n)"
| toggle_settled: "step childId today (s, n) (onToggleTask_settle previous r s, n)"
| mount_begun: "step childId today (s, n) (run_begin s, n)"
| mount_settled: "step childId today (s, n) (run_settle today r s, n)"
| joy_edited: "step childId today (s, n) (setJoyScore v s, n)"
| notes_edited: "step childId today (s, n) (setParentNotes v s, n)"

inductive reachable :: "int \<Rightarrow> string \<Rightarrow> state \<times> nat \<Rightarrow> bool"
  for childId :: int and today :: string where
  at_mount: "reachable childId today (initial, 0)"
| after_step: "reachable childId today cfg \<Longrightarrow> step childId today cfg cfg' \<Longrightarrow> reachable childId today cfg'"

section \<open>Inputs for the worked instances\<close>

text \<open>A task with a given identifier and completion flag, the other fields fixed.\<close>

definition task :: "int \<Rightarrow> bool \<Rightarrow> DailyTask" where
  "task i c =
     \<lparr>id_t = i, child_id = 1, pillar = Cognitive, title = ''Count to ten'',
      description = ''Count aloud.'', duration_minutes = 10, difficulty_level = easy,
      completed = c, completion_timestamp = Absent, date_assigned = ''2024-05-01''\<rparr>"

text \<open>A plan of \<open>n\<close> tasks with identifiers \<open>1..n\<close>, the first \<open>d\<close> of them completed.\<close>

definition plan_of :: "nat \<Rightarrow> nat \<Rightarrow> DailyTask list" where
  "plan_of d n = map (\<lambda>k. task (int k + 1) (k < d)) [0..<n]"

text \<open>A backend that settles every request the same way.\<close>

definition always :: "exn + response \<Rightarrow> server" where
  "always r = (\<lambda>reqs req. r)"


definition not_found :: response where
  "not_found = \<lparr>status = 404, content = unparsable\<rparr>"


definition server_error :: response where
  "server_error = \<lparr>status = 500, content = unparsable\<rparr>"

text \<open>A mounted checklist showing two live tasks, neither completed.\<close>

definition two_tasks :: state where
  "two_tasks = initial\<lparr>tasks := [task 1 False, task 2 False], loading := False\<rparr>"

text \<open>What the backend returns for task 1 once it is completed: the flag and a timestamp.\<close>

definition confirmed_task :: DailyTask where
  "confirmed_task = (task 1 True)\<lparr>completion_timestamp := Stamp ''2024-05-01T09:30:00''\<rparr>"

text \<open>The checklist after a failed mount: the demo rows and the notice.\<close>

definition demo_view :: state where
  "demo_view = initial\<lparr>tasks := DEMO_TASKS ''2024-05-01'', loading := False,
     error := Some ''Live backend unavailable. Showing demo data for executive preview.''\<rparr>"



text \<open>The freshly mounted component right after a click on the submit button.\<close>

definition submitting :: state where
  "submitting = initial\<lparr>saving := True, saveMessage := None, error := None\<rparr>"

section \<open>Properties of the toggle\<close>

lemma set_completed_length: "length (set_completed taskId c ts) = length ts"
  by (simp add: set_completed_def)

lemma set_completed_nth:
  "i < length ts \<Longrightarrow>
   set_completed taskId c ts ! i =
     (if id_t (ts ! i) = taskId then (ts ! i)\<lparr>completed := c\<rparr> else ts ! i)"
  by (simp add: set_completed_def)

lemma set_completed_distinct:
  assumes "distinct (map id_t ts)" "i < length ts"
  shows "set_completed (id_t (ts ! i)) c ts = ts[i := (ts ! i)\<lparr>completed := c\<rparr>]"
proof (rule nth_equalityI)
  show "length (set_completed (id_t (ts ! i)) c ts) = length (ts[i := (ts ! i)\<lparr>completed := c\<rparr>])"
    by (simp add: set_completed_length)
next
  fix j assume "j < length (set_completed (id_t (ts ! i)) c ts)"
  then have j: "j < length ts" by (simp add: set_completed_length)
  have "id_t (ts ! j) = id_t (ts ! i) \<longleftrightarrow> j = i"
    using assms j by (metis distinct_conv_nth length_map nth_map)
  then show "set_completed (id_t (ts ! i)) c ts ! j = ts[i := (ts ! i)\<lparr>completed := c\<rparr>] ! j"
    using j assms(2) by (simp add: set_completed_nth nth_list_update)
qed

lemma tasks_onToggleTask_begin:
  "tasks (fst (onToggleTask_begin taskId c s)) = set_completed taskId c (tasks s)"
  by (simp add: onToggleTask_begin_def Let_def)

lemma onToggleTask_begin_snapshot:
  "onToggleTask_begin taskId c s = (s1, Some previous) \<Longrightarrow>
   previous = tasks s \<and> taskId < 1000 \<and> s1 = s\<lparr>tasks := set_completed taskId c (tasks s)\<rparr>"
  by (auto simp add: onToggleTask_begin_def Let_def split: if_splits)

lemma onToggleTask_begin_live:
  "taskId < 1000 \<Longrightarrow>
   onToggleTask_begin taskId c s = (s\<lparr>tasks := set_completed taskId c (tasks s)\<rparr>, Some (tasks s))"
  by (simp add: onToggleTask_begin_def Let_def)

lemma onToggleTask_begin_demo:
  "taskId \<ge> 1000 \<Longrightarrow>
   onToggleTask_begin taskId c s = (s\<lparr>tasks := set_completed taskId c (tasks s)\<rparr>, None)"
  by (simp add: onToggleTask_begin_def Let_def)

lemma two_tasks_simps:
  "tasks two_tasks = [task 1 False, task 2 False]" "error two_tasks = None"
  "saving two_tasks = False" "saveMessage two_tasks = None" "joyScore two_tasks = 3"
  "parentNotes two_tasks = []" "loading two_tasks = False"
  by (simp_all add: two_tasks_def initial_def)

lemma task_simps: "id_t (task i c) = i" "completed (task i c) = c"
  "(task i c)\<lparr>completed := c'\<rparr> = task i c'"
  by (simp_all add: task_def)

text \<open>
  C4. The part of \<^verbatim>\<open>onToggleTask\<close> that runs before any network call (it takes no backend
  and no settlement) changes nothing but the collection. The collection keeps its length
  and order; the task at position \<open>i\<close> whose identifier was toggled becomes itself with the
  completion flag set to the requested value; every task with another identifier is
  unchanged; and with unique identifiers the new collection is the old one updated at
  position \<open>i\<close> alone.
\<close>

theorem toggle_sets_flag_at_once:
  assumes "i < length (tasks s)" and "id_t (tasks s ! i) = taskId"
  shows "fst (onToggleTask_begin taskId c s) = s\<lparr>tasks := tasks (fst (onToggleTask_begin taskId c s))\<rparr>
       \<and> length (tasks (fst (onToggleTask_begin taskId c s))) = length (tasks s)
       \<and> tasks (fst (onToggleTask_begin taskId c s)) ! i = (tasks s ! i)\<lparr>completed := c\<rparr>
       \<and> completed (tasks (fst (onToggleTask_begin taskId c s)) ! i) = c
       \<and> (\<forall>j < length (tasks s). id_t (tasks s ! j) \<noteq> taskId \<longrightarrow>
             tasks (fst (onToggleTask_begin taskId c s)) ! j = tasks s ! j)
       \<and> (distinct (map id_t (tasks s)) \<longrightarrow>
             tasks (fst (onToggleTask_begin taskId c s)) = (tasks s)[i := (tasks s ! i)\<lparr>completed := c\<rparr>])"
proof -
  let ?ts' = "tasks (fst (onToggleTask_begin taskId c s))"
  have eq: "?ts' = set_completed taskId c (tasks s)"
    by (rule tasks_onToggleTask_begin)
  have 1: "fst (onToggleTask_begin taskId c s) = s\<lparr>tasks := ?ts'\<rparr>"
    by (simp add: onToggleTask_begin_def Let_def)
  have 2: "length ?ts' = length (tasks s)"
    by (simp add: eq set_completed_length)
  have 3: "?ts' ! i = (tasks s ! i)\<lparr>completed := c\<rparr>"
    using assms by (simp add: eq set_completed_nth)
  have 4: "completed (?ts' ! i) = c"
    by (simp add: 3)
  have 5: "\<forall>j < length (tasks s). id_t (tasks s ! j) \<noteq> taskId \<longrightarrow> ?ts' ! j = tasks s ! j"
    by (simp add: eq set_completed_nth)
  have 6: "distinct (map id_t (tasks s)) \<longrightarrow> ?ts' = (tasks s)[i := (tasks s ! i)\<lparr>completed := c\<rparr>]"
    using assms set_completed_distinct [of "tasks s" i c] by (simp add: eq)
  from 1 2 3 4 5 6 show ?thesis by blast
qed

theorem toggle_sets_flag_at_once_witness:
  "1 < length (tasks two_tasks) \<and> id_t (tasks two_tasks ! 1) = 2
   \<and> distinct (map id_t (tasks two_tasks))
   \<and> tasks (fst (onToggleTask_begin 2 True two_tasks)) = [task 1 False, task 2 True]
   \<and> tasks (fst (onToggleTask_begin 2 True two_tasks)) ! 0 = tasks two_tasks ! 0"
proof -
  have h1: "1 < length (tasks two_tasks)" and h2: "id_t (tasks two_tasks ! 1) = 2"
    and h3: "distinct (map id_t (tasks two_tasks))"
    and h4: "0 < length (tasks two_tasks)" and h5: "id_t (tasks two_tasks ! 0) \<noteq> 2"
    by (simp_all add: two_tasks_simps task_simps)
  from toggle_sets_flag_at_once [OF h1 h2, of True] h3 h4 h5
  have "tasks (fst (onToggleTask_begin 2 True two_tasks)) =
          (tasks two_tasks)[1 := (tasks two_tasks ! 1)\<lparr>completed := True\<rparr>]"
    and "tasks (fst (onToggleTask_begin 2 True two_tasks)) ! 0 = tasks two_tasks ! 0"
    by blast+
  with h1 h2 h3 show ?thesis
    by (simp add: two_tasks_simps task_simps)
qed

text \<open>
  C1. When a toggle leads to a call of \<^verbatim>\<open>completeTask\<close> (the synchronous part hands on
  its snapshot) and that call fails, for whatever reason, the collection is again the
  collection as it was before the toggle, every task in the same order, and the error
  message is set. This holds when nothing runs between the toggle and the failure, and
  also for any state \<open>s2\<close> that other handlers have produced by the time the failure
  arrives.
\<close>

theorem toggle_failure_rolls_back:
  assumes "onToggleTask_begin taskId c s = (s1, Some previous)"
    and "completeTask srv reqs taskId c = (Inl e, reqs')"
  shows "tasks (fst (onToggleTask srv reqs taskId c s)) = tasks s
       \<and> error (fst (onToggleTask srv reqs taskId c s)) =
           Some ''Could not update task status. Please try again.''
       \<and> (\<forall>s2. tasks (onToggleTask_settle previous (Inl e) s2) = tasks s
              \<and> error (onToggleTask_settle previous (Inl e) s2) =
                  Some ''Could not update task status. Please try again.'')"
proof -
  from assms(1) have prev: "previous = tasks s"
    by (simp add: onToggleTask_begin_snapshot)
  have seq: "fst (onToggleTask srv reqs taskId c s) = onToggleTask_settle previous (Inl e) s1"
    using assms by (simp add: onToggleTask_def)
  have settle: "tasks (onToggleTask_settle previous (Inl e) s2) = tasks s
      \<and> error (onToggleTask_settle previous (Inl e) s2) =
          Some ''Could not update task status. Please try again.''" for s2
    by (simp add: onToggleTask_settle_def prev)
  from seq settle show ?thesis by simp
qed

theorem toggle_failure_rolls_back_witness:
  "onToggleTask_begin 1 True two_tasks =
     (two_tasks\<lparr>tasks := [task 1 True, task 2 False]\<rparr>, Some [task 1 False, task 2 False])
   \<and> completeTask (always (Inr server_error)) [] 1 True =
       (Inl (Error ''Failed to update task status''), [complete_request 1 True])
   \<and> tasks (fst (onToggleTask (always (Inr server_error)) [] 1 True two_tasks)) =
       [task 1 False, task 2 False]
   \<and> error (fst (onToggleTask (always (Inr server_error)) [] 1 True two_tasks)) =
       Some ''Could not update task status. Please try again.''"
proof -
  have b: "onToggleTask_begin 1 True two_tasks =
     (two_tasks\<lparr>tasks := [task 1 True, task 2 False]\<rparr>, Some [task 1 False, task 2 False])"
    by (simp add: onToggleTask_begin_def Let_def two_tasks_simps set_completed_def task_simps)
  have f: "completeTask (always (Inr server_error)) [] 1 True =
       (Inl (Error ''Failed to update task status''), [complete_request 1 True])"
    by (simp add: completeTask_def fetch_def always_def server_error_def ok_def)
  from toggle_failure_rolls_back [OF b f] b f show ?thesis
    by (simp add: two_tasks_simps)
qed

lemma adopt_length: "length (adopt updated ts) = length ts"
  by (simp add: adopt_def)

lemma adopt_nth:
  "i < length ts \<Longrightarrow>
   adopt updated ts ! i = (if id_t (ts ! i) = id_t updated then updated else ts ! i)"
  by (simp add: adopt_def)

lemma id_t_set_completed_nth:
  "i < length ts \<Longrightarrow> id_t (set_completed taskId c ts ! i) = id_t (ts ! i)"
  by (simp add: set_completed_nth)

lemma completeTask_requests:
  "snd (completeTask srv reqs taskId c) = reqs @ [complete_request taskId c]"
  by (simp add: completeTask_def fetch_def split: sum.splits)

text \<open>
  C5. A task of the collection is toggled to completed, the toggle calls the backend, and
  the call succeeds with a task that matches the request: it carries the toggled
  identifier and the requested flag. Then the local task at that position is the returned
  task itself, field for field (its flag is true and its timestamp is the server's), the
  collection keeps its length, and the tasks with other identifiers are as they were.
  The same replacement happens on whatever state \<open>s2\<close> the collection is in when the
  response arrives, as long as the task is still at its position.
\<close>

theorem toggle_success_adopts_server_task:
  assumes "i < length (tasks s)" and "id_t (tasks s ! i) = taskId"
    and "onToggleTask_begin taskId True s = (s1, Some previous)"
    and "completeTask srv reqs taskId True = (Inr updated, reqs')"
    and "id_t updated = taskId" and "completed updated"
  shows "tasks (fst (onToggleTask srv reqs taskId True s)) ! i = updated
       \<and> completed (tasks (fst (onToggleTask srv reqs taskId True s)) ! i)
       \<and> length (tasks (fst (onToggleTask srv reqs taskId True s))) = length (tasks s)
       \<and> (\<forall>j < length (tasks s). id_t (tasks s ! j) \<noteq> taskId \<longrightarrow>
             tasks (fst (onToggleTask srv reqs taskId True s)) ! j = tasks s ! j)
       \<and> (\<forall>s2. i < length (tasks s2) \<and> id_t (tasks s2 ! i) = taskId \<longrightarrow>
             tasks (onToggleTask_settle previous (Inr updated) s2) ! i = updated)"
proof -
  let ?ts' = "tasks (fst (onToggleTask srv reqs taskId True s))"
  have s1: "s1 = s\<lparr>tasks := set_completed taskId True (tasks s)\<rparr>"
    using assms(3) by (simp add: onToggleTask_begin_snapshot)
  have seq: "fst (onToggleTask srv reqs taskId True s) = onToggleTask_settle previous (Inr updated) s1"
    using assms(3,4) by (simp add: onToggleTask_def)
  have ts': "?ts' = adopt updated (set_completed taskId True (tasks s))"
    by (simp add: seq s1 onToggleTask_settle_def)
  have 1: "?ts' ! i = updated"
    using assms(1,2,5) by (simp add: ts' adopt_nth set_completed_length set_completed_nth)
  have 2: "completed (?ts' ! i)"
    using assms(6) by (simp add: 1)
  have 3: "length ?ts' = length (tasks s)"
    by (simp add: ts' adopt_length set_completed_length)
  have 4: "\<forall>j < length (tasks s). id_t (tasks s ! j) \<noteq> taskId \<longrightarrow> ?ts' ! j = tasks s ! j"
    using assms(5) by (simp add: ts' adopt_nth set_completed_length set_completed_nth)
  have 5: "\<forall>s2. i < length (tasks s2) \<and> id_t (tasks s2 ! i) = taskId \<longrightarrow>
             tasks (onToggleTask_settle previous (Inr updated) s2) ! i = updated"
    using assms(5) by (simp add: onToggleTask_settle_def adopt_nth)
  from 1 2 3 4 5 show ?thesis by blast
qed

theorem toggle_success_adopts_server_task_witness:
  "0 < length (tasks two_tasks) \<and> id_t (tasks two_tasks ! 0) = 1
   \<and> onToggleTask_begin 1 True two_tasks =
       (two_tasks\<lparr>tasks := [task 1 True, task 2 False]\<rparr>, Some [task 1 False, task 2 False])
   \<and> completeTask (always (Inr \<lparr>status = 200, content = one_task confirmed_task\<rparr>)) [] 1 True =
       (Inr confirmed_task, [complete_request 1 True])
   \<and> id_t confirmed_task = 1 \<and> completed confirmed_task
   \<and> tasks (fst (onToggleTask (always (Inr \<lparr>status = 200, content = one_task confirmed_task\<rparr>))
        [] 1 True two_tasks)) ! 0 = confirmed_task
   \<and> completion_timestamp (tasks (fst (onToggleTask
        (always (Inr \<lparr>status = 200, content = one_task confirmed_task\<rparr>))
        [] 1 True two_tasks)) ! 0) = Stamp ''2024-05-01T09:30:00''"
proof -
  have h1: "0 < length (tasks two_tasks)" and h2: "id_t (tasks two_tasks ! 0) = 1"
    by (simp_all add: two_tasks_simps task_simps)
  have h3: "onToggleTask_begin 1 True two_tasks =
       (two_tasks\<lparr>tasks := [task 1 True, task 2 False]\<rparr>, Some [task 1 False, task 2 False])"
    by (simp add: onToggleTask_begin_def Let_def two_tasks_simps set_completed_def task_simps)
  have h4: "completeTask (always (Inr \<lparr>status = 200, content = one_task confirmed_task\<rparr>)) [] 1 True =
       (Inr confirmed_task, [complete_request 1 True])"
    by (simp add: completeTask_def fetch_def always_def ok_def json_task_def)
  have h5: "id_t confirmed_task = 1" and h6: "completed confirmed_task"
    and h7: "completion_timestamp confirmed_task = Stamp ''2024-05-01T09:30:00''"
    by (simp_all add: confirmed_task_def task_def)
  from toggle_success_adopts_server_task [OF h1 h2 h3 h4 h5 h6] h1 h2 h3 h4 h5 h6 h7
  show ?thesis by simp
qed

lemma onSubmit_begin_demo:
  "list_ex (\<lambda>task. id_t task \<ge> 1000) (tasks s) \<Longrightarrow>
   onSubmit_begin childId s =
     (s\<lparr>saving := False,
        saveMessage := Some ''Demo check-in saved locally. Connect backend to persist.'',
        error := None\<rparr>, None)"
  by (simp add: onSubmit_begin_def Let_def)


text \<open>
  C9. A toggle of a task whose identifier is at least 1000 returns at once with the request
  log untouched: the only change is the completion flag of the rows with that identifier,
  the error message and the other fields stay as they are, and nothing is rolled back.
  A submission made while some task of the collection has an identifier of at least 1000
  sets the demo message and leaves the request log untouched as well.
\<close>

theorem demo_mode_stays_local:
  "(taskId \<ge> 1000 \<longrightarrow>
      onToggleTask srv reqs taskId c s =
        (s\<lparr>tasks := map (\<lambda>task. if id_t task = taskId then task\<lparr>completed := c\<rparr> else task)
                       (tasks s)\<rparr>, reqs))
   \<and> ((\<exists>t \<in> set (tasks s). id_t t \<ge> 1000) \<longrightarrow>
      onSubmit srv reqs childId s =
        (s\<lparr>saving := False,
           saveMessage := Some ''Demo check-in saved locally. Connect backend to persist.'',
           error := None\<rparr>, reqs))"
proof (intro conjI impI)
  assume "taskId \<ge> 1000"
  then show "onToggleTask srv reqs taskId c s =
        (s\<lparr>tasks := map (\<lambda>task. if id_t task = taskId then task\<lparr>completed := c\<rparr> else task)
                       (tasks s)\<rparr>, reqs)"
    by (simp add: onToggleTask_def onToggleTask_begin_demo set_completed_def)
next
  assume "\<exists>t \<in> set (tasks s). id_t t \<ge> 1000"
  then have "list_ex (\<lambda>task. id_t task \<ge> 1000) (tasks s)"
    by (simp add: list_ex_iff)
  then show "onSubmit srv reqs childId s =
        (s\<lparr>saving := False,
           saveMessage := Some ''Demo check-in saved locally. Connect backend to persist.'',
           error := None\<rparr>, reqs)"
    by (simp add: onSubmit_def onSubmit_begin_demo)
qed

theorem demo_mode_stays_local_witness:
  "(1002::int) \<ge> 1000 \<and> (\<exists>t \<in> set (tasks demo_view). id_t t \<ge> 1000)
   \<and> snd (onToggleTask (always (Inr server_error)) [] 1002 True demo_view) = []
   \<and> map completed (tasks (fst (onToggleTask (always (Inr server_error)) [] 1002 True demo_view))) =
       [True, True, False, True, False]
   \<and> error (fst (onToggleTask (always (Inr server_error)) [] 1002 True demo_view)) = error demo_view
   \<and> snd (onSubmit (always (Inr server_error)) [] 1 demo_view) = []
   \<and> saveMessage (fst (onSubmit (always (Inr server_error)) [] 1 demo_view)) =
       Some ''Demo check-in saved locally. Connect backend to persist.''"
proof -
  have h1: "(1002::int) \<ge> 1000" by simp
  have h2: "\<exists>t \<in> set (tasks demo_view). id_t t \<ge> 1000"
    by (simp add: demo_view_def initial_def DEMO_TASKS_def)
  from demo_mode_stays_local [of 1002 "always (Inr server_error)" "[]" True demo_view 1] h1 h2
  have t: "onToggleTask (always (Inr server_error)) [] 1002 True demo_view =
        (demo_view\<lparr>tasks := map (\<lambda>task. if id_t task = 1002 then task\<lparr>completed := True\<rparr> else task)
                       (tasks demo_view)\<rparr>, [])"
    and u: "onSubmit (always (Inr server_error)) [] 1 demo_view =
        (demo_view\<lparr>saving := False,
           saveMessage := Some ''Demo check-in saved locally. Connect backend to persist.'',
           error := None\<rparr>, [])"
    by blast+
  have m: "map completed (map (\<lambda>task. if id_t task = 1002 then task\<lparr>completed := True\<rparr> else task)
                       (tasks demo_view)) = [True, True, False, True, False]"
    by (simp add: demo_view_def initial_def DEMO_TASKS_def)
  from h1 h2 m show ?thesis
    by (simp add: t u)
qed

section \<open>Properties of the mount effect\<close>

lemma DEMO_TASKS_percentage: "completionPercentage (DEMO_TASKS today) = 40"
  by (simp add: completionPercentage_def DEMO_TASKS_def) code_simp

text \<open>
  C8. When \<^verbatim>\<open>fetchDailyPlan\<close> rejects, with any exception, the mount effect ends with the
  five demo tasks as the collection, two of them completed, a displayed completion of 40,
  the notice that starts with "Live backend unavailable" as the error message, and the
  loading flag cleared. The same holds on whatever state \<open>s2\<close> the rejection arrives.
\<close>

theorem mount_failure_shows_demo_tasks:
  assumes "fetchDailyPlan srv reqs childId = (Inl e, reqs')"
  shows "tasks (fst (run today srv reqs childId s)) = DEMO_TASKS today
       \<and> length (tasks (fst (run today srv reqs childId s))) = 5
       \<and> length (filter completed (tasks (fst (run today srv reqs childId s)))) = 2
       \<and> completionPercentage (tasks (fst (run today srv reqs childId s))) = 40
       \<and> error (fst (run today srv reqs childId s)) =
           Some ''Live backend unavailable. Showing demo data for executive preview.''
       \<and> \<not> loading (fst (run today srv reqs childId s))
       \<and> (\<forall>s2. tasks (run_settle today (Inl e) s2) = DEMO_TASKS today
              \<and> error (run_settle today (Inl e) s2) =
                  Some ''Live backend unavailable. Showing demo data for executive preview.'')"
proof -
  have seq: "fst (run today srv reqs childId s) = run_settle today (Inl e) (run_begin s)"
    using assms by (simp add: run_def)
  have 1: "tasks (run_settle today (Inl e) s2) = DEMO_TASKS today
      \<and> error (run_settle today (Inl e) s2) =
          Some ''Live backend unavailable. Showing demo data for executive preview.''
      \<and> \<not> loading (run_settle today (Inl e) s2)" for s2
    by (simp add: run_settle_def)
  have 2: "length (DEMO_TASKS today) = 5" "length (filter completed (DEMO_TASKS today)) = 2"
    by (simp_all add: DEMO_TASKS_def)
  from seq 1 2 DEMO_TASKS_percentage [of today] show ?thesis by simp
qed

theorem mount_failure_shows_demo_tasks_witness:
  "fetchDailyPlan (always (Inr server_error)) [] 1 =
     (Inl (Error ''Failed to fetch daily plan''), [plan_request 1])
   \<and> tasks (fst (run ''2024-05-01'' (always (Inr server_error)) [] 1 initial)) =
       DEMO_TASKS ''2024-05-01''
   \<and> completionPercentage (tasks (fst (run ''2024-05-01'' (always (Inr server_error)) [] 1 initial))) = 40
   \<and> take 24 (the (error (fst (run ''2024-05-01'' (always (Inr server_error)) [] 1 initial)))) =
       ''Live backend unavailable''"
proof -
  have h: "fetchDailyPlan (always (Inr server_error)) [] 1 =
     (Inl (Error ''Failed to fetch daily plan''), [plan_request 1])"
    by (simp add: fetchDailyPlan_def fetch_def always_def server_error_def ok_def)
  from mount_failure_shows_demo_tasks [OF h, of "''2024-05-01''" initial]
  have a: "tasks (fst (run ''2024-05-01'' (always (Inr server_error)) [] 1 initial)) =
       DEMO_TASKS ''2024-05-01''"
    and b: "completionPercentage
       (tasks (fst (run ''2024-05-01'' (always (Inr server_error)) [] 1 initial))) = 40"
    and c: "error (fst (run ''2024-05-01'' (always (Inr server_error)) [] 1 initial)) =
           Some ''Live backend unavailable. Showing demo data for executive preview.''"
    by blast+
  have d: "take 24 (the (error (fst (run ''2024-05-01'' (always (Inr server_error)) [] 1 initial)))) =
       ''Live backend unavailable''"
    by (simp add: c)
  from h a b d show ?thesis by blast
qed

section \<open>Properties of the API client\<close>

lemma saveDailyCheckin_requests:
  "snd (saveDailyCheckin srv reqs p) = reqs @ [checkin_request p]"
  by (simp add: saveDailyCheckin_def fetch_def split: sum.splits)

lemma fetchDailyPlan_first_not_404:
  assumes "\<forall>r. srv reqs (plan_request childId) = Inr r \<longrightarrow> ok r \<or> status r \<noteq> 404"
  shows "snd (fetchDailyPlan srv reqs childId) = reqs @ [plan_request childId]"
  using assms by (auto simp add: fetchDailyPlan_def fetch_def split: sum.splits)

lemma fetchDailyPlan_404_profile_rejected:
  assumes "srv reqs (plan_request childId) = Inr r1" and "status r1 = 404"
    and "srv (reqs @ [plan_request childId]) profile_request = Inl e"
  shows "fetchDailyPlan srv reqs childId = (Inl e, reqs @ [plan_request childId, profile_request])"
  using assms
  by (simp add: fetchDailyPlan_def fetch_def ensureDefaultProfileExists_def ok_def)

lemma fetchDailyPlan_404_profile_answered:
  assumes "srv reqs (plan_request childId) = Inr r1" and "status r1 = 404"
    and "srv (reqs @ [plan_request childId]) profile_request = Inr r2"
  shows "fetchDailyPlan srv reqs childId =
     (case srv (reqs @ [plan_request childId, profile_request]) (plan_request childId) of
        Inl e \<Rightarrow> Inl e
      | Inr retry \<Rightarrow> if ok retry then json_tasks retry else Inl (Error ''Failed to fetch daily plan''),
      reqs @ [plan_request childId, profile_request, plan_request childId])"
  using assms
  by (simp add: fetchDailyPlan_def fetch_def ensureDefaultProfileExists_def ok_def
      split: sum.splits)

lemma fetchDailyPlan_requests:
  "snd (fetchDailyPlan srv reqs childId) = reqs @ [plan_request childId]
   \<or> snd (fetchDailyPlan srv reqs childId) = reqs @ [plan_request childId, profile_request]
   \<or> snd (fetchDailyPlan srv reqs childId) =
       reqs @ [plan_request childId, profile_request, plan_request childId]"
  by (simp add: fetchDailyPlan_def fetch_def ensureDefaultProfileExists_def split: sum.splits)




text \<open>
  C7, as the code has it. \<^verbatim>\<open>completeTask\<close> and \<^verbatim>\<open>saveDailyCheckin\<close> add exactly one
  request to the log at every invocation, whatever was requested before: invoked twice
  with the same arguments they issue the request twice (nothing is cached).
  \<^verbatim>\<open>fetchDailyPlan\<close> always issues its plan request, marked \<^verbatim>\<open>no-store\<close>, again at
  every invocation, and that is its only request unless the answer has status 404. After
  a 404 it issues the profile creation; when that is answered, with any status, exactly
  one retry of the plan request follows (three requests), and when it is rejected nothing
  follows (two requests). The three operations take the backend and the log and return a
  result and the log: they neither read nor write the state of the component.
\<close>

theorem client_network_calls:
  "snd (completeTask srv reqs taskId c) = reqs @ [complete_request taskId c]
   \<and> snd (completeTask srv (snd (completeTask srv reqs taskId c)) taskId c) =
       reqs @ [complete_request taskId c, complete_request taskId c]
   \<and> snd (saveDailyCheckin srv reqs p) = reqs @ [checkin_request p]
   \<and> snd (saveDailyCheckin srv (snd (saveDailyCheckin srv reqs p)) p) =
       reqs @ [checkin_request p, checkin_request p]
   \<and> (\<exists>rest. snd (fetchDailyPlan srv reqs childId) = reqs @ plan_request childId # rest
         \<and> (rest = [] \<or> rest = [profile_request]
             \<or> rest = [profile_request, plan_request childId]))
   \<and> (\<exists>rest. snd (fetchDailyPlan srv (snd (fetchDailyPlan srv reqs childId)) childId) =
         snd (fetchDailyPlan srv reqs childId) @ plan_request childId # rest)
   \<and> ((\<forall>r. srv reqs (plan_request childId) = Inr r \<longrightarrow> ok r \<or> status r \<noteq> 404) \<longrightarrow>
         snd (fetchDailyPlan srv reqs childId) = reqs @ [plan_request childId])
   \<and> (\<forall>r1. srv reqs (plan_request childId) = Inr r1 \<and> status r1 = 404 \<longrightarrow>
         (\<forall>r2. srv (reqs @ [plan_request childId]) profile_request = Inr r2 \<longrightarrow>
            snd (fetchDailyPlan srv reqs childId) =
              reqs @ [plan_request childId, profile_request, plan_request childId])
       \<and> (\<forall>e. srv (reqs @ [plan_request childId]) profile_request = Inl e \<longrightarrow>
            snd (fetchDailyPlan srv reqs childId) =
              reqs @ [plan_request childId, profile_request]))
   \<and> no_store (plan_request childId)"
proof -
  have 1: "\<exists>rest. snd (fetchDailyPlan srv rs childId) = rs @ plan_request childId # rest
         \<and> (rest = [] \<or> rest = [profile_request]
             \<or> rest = [profile_request, plan_request childId])" for rs
    using fetchDailyPlan_requests [of srv rs childId] by auto
  from 1 [of "snd (fetchDailyPlan srv reqs childId)"]
  have 2: "\<exists>rest. snd (fetchDailyPlan srv (snd (fetchDailyPlan srv reqs childId)) childId) =
         snd (fetchDailyPlan srv reqs childId) @ plan_request childId # rest"
    by blast
  have 3: "(\<forall>r. srv reqs (plan_request childId) = Inr r \<longrightarrow> ok r \<or> status r \<noteq> 404) \<longrightarrow>
         snd (fetchDailyPlan srv reqs childId) = reqs @ [plan_request childId]"
    using fetchDailyPlan_first_not_404 [of srv reqs childId] by blast
  have 4: "snd (fetchDailyPlan srv reqs childId) =
              reqs @ [plan_request childId, profile_request, plan_request childId]"
    if "srv reqs (plan_request childId) = Inr r1" and "status r1 = 404"
      and "srv (reqs @ [plan_request childId]) profile_request = Inr r2" for r1 r2
    using fetchDailyPlan_404_profile_answered [OF that] by simp
  have 5: "snd (fetchDailyPlan srv reqs childId) =
              reqs @ [plan_request childId, profile_request]"
    if "srv reqs (plan_request childId) = Inr r1" and "status r1 = 404"
      and "srv (reqs @ [plan_request childId]) profile_request = Inl e" for r1 e
    using fetchDailyPlan_404_profile_rejected [OF that] by simp
  have 6: "no_store (plan_request childId)"
    by (simp add: plan_request_def)
  have 7: "snd (completeTask srv rs taskId c) = rs @ [complete_request taskId c]" for rs
    by (rule completeTask_requests)
  have 8: "snd (saveDailyCheckin srv rs p) = rs @ [checkin_request p]" for rs
    by (rule saveDailyCheckin_requests)
  have 9: "snd (completeTask srv (snd (completeTask srv reqs taskId c)) taskId c) =
       reqs @ [complete_request taskId c, complete_request taskId c]"
    by (simp add: 7)
  have 10: "snd (saveDailyCheckin srv (snd (saveDailyCheckin srv reqs p)) p) =
       reqs @ [checkin_request p, checkin_request p]"
    by (simp add: 8)
  from 1 [of reqs] 2 3 4 5 6 7 [of reqs] 8 [of reqs] 9 10 show ?thesis by blast
qed

theorem client_network_calls_witness:
  "always (Inr server_error) [] (plan_request 1) = Inr server_error
   \<and> status server_error = 500
   \<and> snd (fetchDailyPlan (always (Inr server_error)) [] 1) = [plan_request 1]
   \<and> snd (completeTask (always (Inr server_error)) [] 5 True) = [complete_request 5 True]
   \<and> always (Inr not_found) [] (plan_request 1) = Inr not_found
   \<and> status not_found = 404
   \<and> always (Inr not_found) [plan_request 1] profile_request = Inr not_found
   \<and> snd (fetchDailyPlan (always (Inr not_found)) [] 1) =
       [plan_request 1, profile_request, plan_request 1]"
proof -
  have h: "\<forall>r. always (Inr server_error) [] (plan_request 1) = Inr r \<longrightarrow> ok r \<or> status r \<noteq> 404"
    by (simp add: always_def server_error_def)
  from client_network_calls [of "always (Inr server_error)" "[]" 5 True _ 1] h
  have a: "snd (fetchDailyPlan (always (Inr server_error)) [] 1) = [] @ [plan_request 1]"
    and b: "snd (completeTask (always (Inr server_error)) [] 5 True) = [] @ [complete_request 5 True]"
    by blast+
  have h1: "always (Inr not_found) [] (plan_request 1) = Inr not_found"
    and h2: "status not_found = 404"
    and h3: "always (Inr not_found) ([] @ [plan_request 1]) profile_request = Inr not_found"
    by (simp_all add: always_def not_found_def)
  from client_network_calls [of "always (Inr not_found)" "[]" 5 True _ 1] h1 h2 h3
  have c: "snd (fetchDailyPlan (always (Inr not_found)) [] 1) =
       [] @ [plan_request 1, profile_request, plan_request 1]"
    by blast
  from a b c h1 h2 h3 show ?thesis by (simp add: always_def server_error_def)
qed

text \<open>
  The sentence of the specification fails for the plan fetch: against a backend that answers 404 it
  performs three network calls in a single invocation.
\<close>

theorem fetchDailyPlan_three_calls_counterexample:
  "length (snd (fetchDailyPlan (always (Inr not_found)) [] 1)) = 3
   \<and> snd (fetchDailyPlan (always (Inr not_found)) [] 1) =
       [plan_request 1, profile_request, plan_request 1]"
  by (simp add: fetchDailyPlan_def fetch_def ensureDefaultProfileExists_def always_def
      not_found_def ok_def)



section \<open>Properties of the checkin flow\<close>

lemma saving_onSubmit_begin:
  "onSubmit_begin childId s = (s1, po) \<Longrightarrow> saving s1 \<longleftrightarrow> po \<noteq> None"
  by (auto simp add: onSubmit_begin_def Let_def split: if_splits)

lemma saving_onSubmit_settle: "\<not> saving (onSubmit_settle r s)"
  by (cases r) (simp_all add: onSubmit_settle_def)

lemma saving_onSubmit: "\<not> saving (fst (onSubmit srv reqs childId s))"
proof (cases "onSubmit_begin childId s")
  case (Pair s1 po)
  show ?thesis
  proof (cases po)
    case None
    with Pair saving_onSubmit_begin [OF Pair] show ?thesis
      by (simp add: onSubmit_def)
  next
    case (Some p)
    with Pair show ?thesis
      by (simp add: onSubmit_def saving_onSubmit_settle split: prod.splits)
  qed
qed

lemma button_click_saving: "saving s \<Longrightarrow> button_click childId s = (s, None)"
  by (simp add: button_click_def button_disabled_def)

lemma saving_unchanged:
  "saving (fst (onToggleTask_begin taskId c s)) = saving s"
  "saving (onToggleTask_settle previous r s) = saving s"
  "saving (run_begin s) = saving s"
  "saving (run_settle today q s) = saving s"
  "saving (setJoyScore v s) = saving s"
  "saving (setParentNotes w s) = saving s"
  by (simp_all add: onToggleTask_begin_def Let_def onToggleTask_settle_def run_begin_def
      run_settle_def setJoyScore_def setParentNotes_def split: sum.splits)

lemma step_keeps_saving_invariant:
  assumes "step childId today cfg cfg'"
    and "(snd cfg = 0 \<and> \<not> saving (fst cfg)) \<or> (snd cfg = 1 \<and> saving (fst cfg))"
  shows "(snd cfg' = 0 \<and> \<not> saving (fst cfg')) \<or> (snd cfg' = 1 \<and> saving (fst cfg'))"
  using assms
proof (induction rule: step.induct)
  case (click_started s s' p n)
  then have "\<not> saving s"
    by (auto simp add: button_click_def button_disabled_def split: if_splits)
  with click_started have "n = 0" and "onSubmit_begin childId s = (s', Some p)"
    by (simp_all add: button_click_def button_disabled_def)
  then show ?case
    using saving_onSubmit_begin [of childId s s' "Some p"] by simp
next
  case (click_local s s' n)
  show ?case
  proof (cases "saving s")
    case True
    with click_local show ?thesis by (simp add: button_click_saving)
  next
    case False
    with click_local have "onSubmit_begin childId s = (s', None)"
      by (simp add: button_click_def button_disabled_def)
    with saving_onSubmit_begin [of childId s s' None] have "\<not> saving s'" by simp
    with False click_local show ?thesis by simp
  qed
next
  case (submit_settled s n r)
  then show ?case by (simp add: saving_onSubmit_settle)
qed (simp_all add: saving_unchanged)

lemma reachable_saving_invariant:
  "reachable childId today cfg \<Longrightarrow>
   (snd cfg = 0 \<and> \<not> saving (fst cfg)) \<or> (snd cfg = 1 \<and> saving (fst cfg))"
proof (induction rule: reachable.induct)
  case at_mount
  show ?case by (simp add: initial_def)
next
  case (after_step cfg cfg')
  then show ?case using step_keeps_saving_invariant by blast
qed

text \<open>
  C10. A submission that goes on to call \<^verbatim>\<open>saveDailyCheckin\<close> has set the saving flag
  before the call; when the call settles, with success or with any failure, the flag is
  false again, on any state, and so it is after a whole submission. The button is
  disabled exactly when the flag is set, and a click while it is set starts nothing and
  changes nothing. In every configuration the component can reach from its mount, at
  most one submission is outstanding, one is outstanding exactly when the flag is set,
  and then a click on the button starts no second one.
\<close>

theorem saving_flag_guards_submission:
  "(onSubmit_begin childId s = (s1, Some p) \<longrightarrow> saving s1)
   \<and> \<not> saving (onSubmit_settle (Inr ()) s2) \<and> \<not> saving (onSubmit_settle (Inl e) s2)
   \<and> \<not> saving (fst (onSubmit srv reqs childId s))
   \<and> (button_disabled s \<longleftrightarrow> saving s)
   \<and> (saving s \<longrightarrow> button_click childId s = (s, None))
   \<and> (reachable childId today (s', n) \<longrightarrow>
         n \<le> 1 \<and> (n = 1 \<longleftrightarrow> saving s') \<and> (n = 1 \<longrightarrow> button_click childId s' = (s', None)))"
proof -
  have 1: "onSubmit_begin childId s = (s1, Some p) \<longrightarrow> saving s1"
    using saving_onSubmit_begin [of childId s s1 "Some p"] by simp
  have 2: "button_disabled s \<longleftrightarrow> saving s"
    by (simp add: button_disabled_def)
  have 3: "saving s \<longrightarrow> button_click childId s = (s, None)"
    by (simp add: button_click_saving)
  have 4: "n \<le> 1 \<and> (n = 1 \<longleftrightarrow> saving s') \<and> (n = 1 \<longrightarrow> button_click childId s' = (s', None))"
    if "reachable childId today (s', n)"
    using reachable_saving_invariant [OF that] by (auto simp add: button_click_saving)
  from 1 2 3 4 saving_onSubmit_settle [of "Inr ()" s2] saving_onSubmit_settle [of "Inl e" s2]
    saving_onSubmit [of srv reqs childId s]
  show ?thesis by blast
qed

theorem saving_flag_guards_submission_witness:
  "onSubmit_begin 1 initial =
     (submitting, Some \<lparr>SaveCheckinPayload.child_id = 1, joy_score = 3, parent_notes = []\<rparr>)
   \<and> saving submitting
   \<and> reachable 1 ''2024-05-01'' (submitting, 1)
   \<and> button_click 1 submitting = (submitting, None)"
proof -
  have b: "onSubmit_begin 1 initial =
     (submitting, Some \<lparr>SaveCheckinPayload.child_id = 1, joy_score = 3, parent_notes = []\<rparr>)"
    by (simp add: onSubmit_begin_def Let_def initial_def submitting_def)
  have c: "button_click 1 initial =
     (submitting, Some \<lparr>SaveCheckinPayload.child_id = 1, joy_score = 3, parent_notes = []\<rparr>)"
    by (simp add: button_click_def button_disabled_def b) (simp add: initial_def)
  have r: "reachable 1 ''2024-05-01'' (submitting, 1)"
    using reachable.after_step [OF reachable.at_mount step.click_started [OF c]] by simp
  from saving_flag_guards_submission
    [of 1 initial submitting "\<lparr>SaveCheckinPayload.child_id = 1, joy_score = 3, parent_notes = []\<rparr>"
        _ _ _ _ "''2024-05-01''" submitting 1] b r
  have "saving submitting" and "button_click 1 submitting = (submitting, None)"
    by blast+
  with b r show ?thesis by simp
qed








section \<open>Properties of the completion percentage\<close>

lemma completionPercentage_empty: "completionPercentage [] = 0"
  by (simp add: completionPercentage_def)

lemma length_plan_of: "length (plan_of d n) = n"
  by (simp add: plan_of_def)

lemma count_upt_less: "length (filter (\<lambda>k. k < d) [0..<n]) = min d n"
  by (induction n) auto

lemma completed_plan_of: "length (filter completed (plan_of d n)) = min d n"
proof -
  have "filter completed (plan_of d n) =
          map (\<lambda>k. task (int k + 1) (k < d)) (filter (\<lambda>k. k < d) [0..<n])"
    by (simp add: plan_of_def filter_map comp_def task_simps)
  then show ?thesis by (simp add: count_upt_less)
qed

lemma completionPercentage_plan_of:
  "0 < n \<Longrightarrow> d \<le> n \<Longrightarrow>
   completionPercentage (plan_of d n) = Math_round (js_mul (js_div (of_nat d) (of_nat n)) 100)"
  by (simp add: completionPercentage_def length_plan_of completed_plan_of)

text \<open>The binary64 nearest to one tenth, as a check of \<open>fl\<close> against the known value.\<close>

lemma fl_one_tenth: "fl (1 / 10) = 3602879701896397 / 2 ^ 55"
  by code_simp

lemma fl_exact_examples: "fl 0 = 0" "fl 1 = 1" "fl 100 = 100" "fl (1 / 2) = 1 / 2" "fl (115 / 2) = 115 / 2"
  by code_simp+

text \<open>The scenario of five tasks: the displayed values are the exact percentages.\<close>

lemma completionPercentage_of_five:
  "map (\<lambda>d. completionPercentage (plan_of d 5)) [0, 1, 2, 3, 4, 5] = [0, 20, 40, 60, 80, 100]"
  by (simp add: completionPercentage_plan_of) code_simp

text \<open>
  C3 at a plan of 40 tasks of which 23 are completed. The exact percentage is 57.5, which
  rounds to 58 (to the nearest integer, whichever way ties go: up, or to even). The code
  divides first: 23 / 40 is not a binary fraction, the nearest double lies below it, the
  product with 100 rounds to a double just below 57.5, and \<^verbatim>\<open>Math.round\<close> returns 57.
\<close>

theorem completionPercentage_23_of_40:
  "length (plan_of 23 40) = 40
   \<and> length (filter completed (plan_of 23 40)) = 23
   \<and> js_mul (js_div 23 40) 100 = 8092405580431359 / 2 ^ 47
   \<and> js_mul (js_div 23 40) 100 < 115 / 2
   \<and> completionPercentage (plan_of 23 40) = 57
   \<and> round (100 * 23 / 40 :: rat) = 58
   \<and> round_half_even (100 * 23 / 40) = 58"
proof -
  have 1: "length (plan_of 23 40) = 40" "length (filter completed (plan_of 23 40)) = 23"
    by (simp_all add: length_plan_of completed_plan_of)
  have 2: "js_mul (js_div 23 40) 100 = 8092405580431359 / 2 ^ 47"
    by code_simp
  have 3: "js_mul (js_div 23 40) 100 < 115 / 2"
    by (simp add: 2)
  have "Math_round (8092405580431359 / 2 ^ 47) = 57"
    by code_simp
  then have 4: "completionPercentage (plan_of 23 40) = 57"
    using completionPercentage_plan_of [of 40 23] by (simp add: 2)
  have 5: "round (100 * 23 / 40 :: rat) = 58"
    by code_simp
  have 6: "round_half_even (100 * 23 / 40) = 58"
    by code_simp
  from 1 2 3 4 5 6 show ?thesis by blast
qed

subsection \<open>Accuracy of the double-precision operations\<close>

lemma floorlog2_pos: "0 < m \<Longrightarrow> 0 < floorlog 2 m"
  by (simp add: floorlog_def)

lemma pow2_le_of_nat: "2 ^ j \<le> m \<Longrightarrow> (2::rat) ^ j \<le> of_nat m"
  by (metis of_nat_le_iff of_nat_numeral of_nat_power)

lemma of_nat_Suc_le_pow2: "m < 2 ^ j \<Longrightarrow> (of_nat m :: rat) + 1 \<le> 2 ^ j"
proof -
  assume "m < 2 ^ j"
  then have "Suc m \<le> 2 ^ j" by simp
  then have "(of_nat (Suc m) :: rat) \<le> of_nat (2 ^ j)" by (simp only: of_nat_le_iff)
  then show ?thesis by (simp add: add.commute)
qed

lemma binade_ge_one:
  fixes x :: rat
  assumes "1 \<le> x"
  shows "\<exists>k. 0 < k \<and> binade x = int k - 1 \<and> 2 ^ (k - 1) \<le> x \<and> x < 2 ^ k"
proof -
  define m where "m = nat \<lfloor>x\<rfloor>"
  define k where "k = floorlog 2 m"
  from assms have "1 \<le> \<lfloor>x\<rfloor>" by simp
  then have m: "0 < m" and fl: "of_int \<lfloor>x\<rfloor> = (of_nat m :: rat)"
    by (simp_all add: m_def)
  have lo: "of_nat m \<le> x" and hi: "x < of_nat m + 1"
    using fl by linarith+
  have k: "0 < k" using m by (simp add: k_def floorlog2_pos)
  from floorlog_bounds [of m 2] m have b: "2 ^ (k - 1) \<le> m" "m < 2 ^ k"
    by (simp_all add: k_def)
  have 1: "(2::rat) ^ (k - 1) \<le> x"
    using pow2_le_of_nat [OF b(1)] lo by (rule order_trans)
  have 2: "x < 2 ^ k"
    using hi of_nat_Suc_le_pow2 [OF b(2)] by (rule less_le_trans)
  have 3: "binade x = int k - 1"
    using assms by (simp add: binade_def k_def m_def)
  from k 1 2 3 show ?thesis by blast
qed

lemma binade_less_one:
  fixes x :: rat
  assumes "0 < x" and "x < 1"
  shows "\<exists>k. 0 < k \<and> binade x = - int k \<and> 1 / 2 ^ k \<le> x \<and> x < 1 / 2 ^ (k - 1)"
proof -
  define c where "c = \<lceil>1 / x\<rceil>"
  define m where "m = nat c - 1"
  define k where "k = floorlog 2 m"
  from assms have inv: "1 < 1 / x" by (simp add: field_simps)
  then have "2 \<le> c" unfolding c_def by (simp add: less_ceiling_iff)
  then have m: "0 < m" and cm: "(of_int c :: rat) = of_nat m + 1"
    by (simp_all add: m_def)
  have lo: "of_nat m < 1 / x" and hi: "1 / x \<le> of_nat m + 1"
    using cm unfolding c_def by linarith+
  have k: "0 < k" using m by (simp add: k_def floorlog2_pos)
  from floorlog_bounds [of m 2] m have b: "2 ^ (k - 1) \<le> m" "m < 2 ^ k"
    by (simp_all add: k_def)
  have "1 / x \<le> 2 ^ k"
    using hi of_nat_Suc_le_pow2 [OF b(2)] by (rule order_trans)
  then have 1: "1 / 2 ^ k \<le> x"
    using assms(1) by (simp add: field_simps)
  have "2 ^ (k - 1) < 1 / x"
    using pow2_le_of_nat [OF b(1)] lo by (rule le_less_trans)
  then have 2: "x < 1 / 2 ^ (k - 1)"
    using assms(1) by (simp add: field_simps)
  have 3: "binade x = - int k"
    using assms(2) by (simp add: binade_def k_def m_def c_def)
  from k 1 2 3 show ?thesis by blast
qed

lemma binade_bounds:
  fixes x :: rat
  assumes "0 < x"
  shows "2 powi binade x \<le> x" and "x < 2 powi (binade x + 1)"
proof -
  have "2 powi binade x \<le> x \<and> x < 2 powi (binade x + 1)"
  proof (cases "1 \<le> x")
    case True
    from binade_ge_one [OF True] obtain k where k: "0 < k" "binade x = int k - 1"
      "2 ^ (k - 1) \<le> x" "x < 2 ^ k" by blast
    from k(1,2) have "binade x = int (k - 1)" "binade x + 1 = int k" by simp_all
    with k(3,4) show ?thesis by (simp only: power_int_of_nat simp_thms)
  next
    case False
    with assms binade_less_one [of x] obtain k where k: "0 < k" "binade x = - int k"
      "1 / 2 ^ k \<le> x" "x < 1 / 2 ^ (k - 1)" by auto
    from k(1,2) have e: "binade x = - int k" "binade x + 1 = - int (k - 1)" by simp_all
    have "(2::rat) powi (- int k) = 1 / 2 ^ k" "(2::rat) powi (- int (k - 1)) = 1 / 2 ^ (k - 1)"
      by (simp_all only: power_int_minus_divide power_int_of_nat)
    with k(3,4) e show ?thesis by (simp only: simp_thms)
  qed
  then show "2 powi binade x \<le> x" and "x < 2 powi (binade x + 1)" by blast+
qed

lemma round_half_even_error: "\<bar>of_int (round_half_even y) - y\<bar> \<le> 1 / 2"
proof -
  have "of_int \<lfloor>y\<rfloor> \<le> y" "y < of_int \<lfloor>y\<rfloor> + 1" by linarith+
  then show ?thesis
    by (auto simp add: round_half_even_def Let_def)
qed

lemma fl_error:
  fixes x :: rat
  assumes "0 < x"
  shows "\<bar>fl x - x\<bar> \<le> x / 2 ^ 53"
proof -
  define e where "e = binade x - 52"
  define y where "y = x / 2 powi e"
  have p: "(0::rat) < 2 powi e" by simp
  have x: "x = y * 2 powi e" by (simp add: y_def)
  have "fl x = of_int (round_half_even y) * 2 powi e"
    using assms by (simp add: fl_def Let_def e_def y_def)
  then have "fl x - x = (of_int (round_half_even y) - y) * 2 powi e"
    by (simp add: x algebra_simps)
  then have "\<bar>fl x - x\<bar> = \<bar>of_int (round_half_even y) - y\<bar> * 2 powi e"
    by (simp add: abs_mult)
  also have "\<dots> \<le> 1 / 2 * 2 powi e"
    using round_half_even_error [of y] p by (simp add: mult_right_mono)
  also have "\<dots> = 2 powi binade x / 2 ^ 53"
  proof -
    have "(2::rat) powi binade x = 2 powi (e + 52)" by (simp add: e_def)
    also have "\<dots> = 2 powi e * 2 ^ 52" by (simp add: power_int_add)
    finally show ?thesis by simp
  qed
  also have "\<dots> \<le> x / 2 ^ 53"
    using binade_bounds(1) [OF assms] by (simp add: divide_right_mono)
  finally show ?thesis .
qed

lemma js_percentage_error:
  fixes d n :: nat
  assumes "0 < d" and "d \<le> n"
  shows "\<bar>js_mul (js_div (of_nat d) (of_nat n)) 100 - 100 * of_nat d / of_nat n\<bar> < 1 / 2 ^ 45"
proof -
  define q :: rat where "q = of_nat d / of_nat n"
  define a where "a = fl q"
  define b where "b = fl (a * 100)"
  have q: "0 < q" "q \<le> 1"
    using assms by (simp_all add: q_def)
  have ea: "\<bar>a - q\<bar> \<le> q / 2 ^ 53"
    unfolding a_def by (rule fl_error [OF q(1)])
  then have ea': "a - q \<le> q / 2 ^ 53" "q - a \<le> q / 2 ^ 53"
    by (simp_all only: abs_le_iff minus_diff_eq)
  have a_pos: "0 < a * 100"
    using ea'(2) q(1) by simp
  have eb: "\<bar>b - a * 100\<bar> \<le> a * 100 / 2 ^ 53"
    unfolding b_def by (rule fl_error [OF a_pos])
  then have eb': "b - a * 100 \<le> a * 100 / 2 ^ 53" "a * 100 - b \<le> a * 100 / 2 ^ 53"
    by (simp_all only: abs_le_iff minus_diff_eq)
  have "b - 100 * q < 1 / 2 ^ 45" "100 * q - b < 1 / 2 ^ 45"
    using ea' eb' q by simp_all
  then have "\<bar>b - 100 * q\<bar> < 1 / 2 ^ 45"
    by (simp only: abs_less_iff minus_diff_eq simp_thms)
  then show ?thesis
    by (simp add: b_def a_def q_def js_mul_def js_div_def)
qed

lemma js_percentage_zero: "js_mul (js_div 0 x) 100 = 0"
  by (simp add: js_mul_def js_div_def fl_def)

text \<open>
  The displayed percentage against the exact one. The double-precision result is within
  \<open>2^-45\<close> of the exact percentage, so \<^verbatim>\<open>Math.round\<close> returns the exact rounding unless
  the exact percentage lies precisely half way between two integers, and is never more
  than one below it. (Collections of \<open>2^44\<close> tasks or more do not occur: an array has
  fewer than \<open>2^32\<close> elements.)
\<close>

lemma completionPercentage_accuracy:
  fixes ts :: "DailyTask list"
  defines "d \<equiv> length (filter completed ts)" and "n \<equiv> length ts"
  assumes "ts \<noteq> []" and "n < 2 ^ 44"
  shows "(200 * d + n) mod (2 * n) \<noteq> 0 \<Longrightarrow>
           completionPercentage ts = round (100 * of_nat d / of_nat n :: rat)"
    and "completionPercentage ts = round (100 * of_nat d / of_nat n :: rat)
         \<or> completionPercentage ts = round (100 * of_nat d / of_nat n :: rat) - 1"
proof -
  define b where "b = js_mul (js_div (of_nat d) (of_nat n)) 100"
  define t :: rat where "t = 100 * of_nat d / of_nat n + 1 / 2"
  define N M where "N = 200 * d + n" and "M = 2 * n"
  have n: "0 < n" using assms(3) by (simp add: n_def)
  have dn: "d \<le> n" by (simp add: d_def n_def)
  have cp: "completionPercentage ts = \<lfloor>b + 1 / 2\<rfloor>"
    using n by (simp add: completionPercentage_def Let_def Math_round_def b_def d_def n_def)
  have rd: "round (100 * of_nat d / of_nat n :: rat) = \<lfloor>t\<rfloor>"
    by (simp add: round_def t_def)
  have err: "\<bar>(b + 1 / 2) - t\<bar> < 1 / 2 ^ 45"
  proof (cases "d = 0")
    case True
    then show ?thesis by (simp add: b_def t_def js_percentage_zero)
  next
    case False
    with js_percentage_error [of d n] dn show ?thesis
      by (simp add: b_def t_def)
  qed
  have M: "0 < M" "(of_nat M :: rat) < 2 ^ 45"
  proof -
    show "0 < M" using n by (simp add: M_def)
    have "M < 2 ^ 45" using assms(4) by (simp add: M_def)
    then have "(of_nat M :: rat) < of_nat (2 ^ 45)" by (simp only: of_nat_less_iff)
    then show "(of_nat M :: rat) < 2 ^ 45" by simp
  qed
  have tNM: "t = of_nat N / of_nat M"
    using n by (simp add: t_def N_def M_def field_simps)
  have split: "t = of_int \<lfloor>t\<rfloor> + of_nat (N mod M) / of_nat M"
  proof -
    have "N = (N div M) * M + N mod M" by simp
    then have "(of_nat N :: rat) = of_nat (N div M) * of_nat M + of_nat (N mod M)"
      by (metis of_nat_add of_nat_mult)
    then have 1: "t = of_nat (N div M) + of_nat (N mod M) / of_nat M"
      using M(1) by (simp add: tNM field_simps)
    have "0 \<le> (of_nat (N mod M) :: rat) / of_nat M" by simp
    moreover have "(of_nat (N mod M) :: rat) / of_nat M < 1"
      using M(1) by simp
    ultimately have "\<lfloor>t\<rfloor> = int (N div M)"
      using 1 by (intro floor_unique) simp_all
    with 1 show ?thesis by simp
  qed
  have frac_hi: "(of_nat (N mod M) :: rat) / of_nat M \<le> 1 - 1 / of_nat M"
  proof -
    have "N mod M < M" using M(1) by simp
    then have "N mod M + 1 \<le> M" by simp
    then have "(of_nat (N mod M + 1) :: rat) \<le> of_nat M" by (simp only: of_nat_le_iff)
    then show ?thesis using M(1) by (simp add: field_simps)
  qed
  have small: "(1::rat) / 2 ^ 45 < 1 / of_nat M"
    using M by (simp add: field_simps)
  show "completionPercentage ts = round (100 * of_nat d / of_nat n :: rat)"
    if "(200 * d + n) mod (2 * n) \<noteq> 0"
  proof -
    from that have "1 \<le> N mod M" by (simp add: N_def M_def)
    then have "(of_nat 1 :: rat) \<le> of_nat (N mod M)" by (simp only: of_nat_le_iff)
    then have frac_lo: "(1::rat) / of_nat M \<le> of_nat (N mod M) / of_nat M"
      using M(1) by (simp add: divide_right_mono)
    have "\<lfloor>b + 1 / 2\<rfloor> = \<lfloor>t\<rfloor>"
      using err split frac_lo frac_hi small by (intro floor_unique) linarith+
    then show ?thesis by (simp add: cp rd)
  qed
  have "\<lfloor>b + 1 / 2\<rfloor> = \<lfloor>t\<rfloor> \<or> \<lfloor>b + 1 / 2\<rfloor> = \<lfloor>t\<rfloor> - 1"
  proof (cases "of_int \<lfloor>t\<rfloor> \<le> b + 1 / 2")
    case True
    have "\<lfloor>b + 1 / 2\<rfloor> = \<lfloor>t\<rfloor>"
      using True err split frac_hi small by (intro floor_unique) linarith+
    then show ?thesis by simp
  next
    case False
    have below: "of_int \<lfloor>t\<rfloor> \<le> t" by (rule of_int_floor_le)
    from err have "t - (b + 1 / 2) < 1 / 2 ^ 45"
      by (simp only: abs_less_iff minus_diff_eq)
    then have "t - (b + 1 / 2) < 1" by simp
    with below have "of_int \<lfloor>t\<rfloor> - 1 \<le> b + 1 / 2"
      by linarith
    then have lo: "of_int (\<lfloor>t\<rfloor> - 1) \<le> b + 1 / 2"
      by simp
    from False have hi: "b + 1 / 2 < of_int (\<lfloor>t\<rfloor> - 1) + 1"
      by simp
    from lo hi have "\<lfloor>b + 1 / 2\<rfloor> = \<lfloor>t\<rfloor> - 1"
      by (rule floor_unique)
    then show ?thesis by simp
  qed
  then show "completionPercentage ts = round (100 * of_nat d / of_nat n :: rat)
         \<or> completionPercentage ts = round (100 * of_nat d / of_nat n :: rat) - 1"
    by (simp add: cp rd)
qed

end
